theory Spec2Isabelle
  imports Complex_Main "HOL-Library.Multiset"
begin

section \<open>Timetable entries\<close>

text \<open>
  Both solvers produce a flat list of dictionaries with the keys
  \<^verbatim>\<open>batch_id, day, time_slot, subject_id, faculty_id, room_id, room_type, is_fixed\<close>.
  Identifiers are database integers, day and period labels are the strings of the
  college row's JSON lists.
\<close>

record entry =
  batch_id :: int
  day :: string
  time_slot :: string
  subject_id :: int
  faculty_id :: int
  room_id :: int
  room_type :: string
  is_fixed :: bool

type_synonym timetable = "entry list"

text \<open>A row of the \<^verbatim>\<open>fixed_slots\<close> table.\<close>

record fixed_slot =
  fs_batch_id :: int
  fs_day :: string
  fs_time_slot :: string
  fs_subject_id :: int
  fs_faculty_id :: int
  fs_room_id :: int
  fs_room_type :: string

text \<open>
  The loop body shared by \<^verbatim>\<open>TimetableCSP._apply_fixed_slots\<close> and the first loop
  of \<^verbatim>\<open>GeneticAlgorithmCPUOptimized._create_random_timetable\<close>.
\<close>

definition fixed_entry :: "fixed_slot \<Rightarrow> entry" where
  "fixed_entry fs =
     \<lparr>batch_id = fs_batch_id fs, day = fs_day fs, time_slot = fs_time_slot fs,
      subject_id = fs_subject_id fs, faculty_id = fs_faculty_id fs,
      room_id = fs_room_id fs, room_type = fs_room_type fs, is_fixed = True\<rparr>"

definition apply_fixed_slots :: "fixed_slot list \<Rightarrow> timetable" where
  "apply_fixed_slots fss = map fixed_entry fss"

section \<open>The random source\<close>

text \<open>
  Python's module-level generator is modelled as an infinite tape of natural numbers that
  every draw reads from the front. Theorems quantify over all tapes, hence over every
  outcome the generator can produce.
  \<^item> \<^verbatim>\<open>random.random()\<close> is a multiple of \<open>2\<^sup>-\<^sup>5\<^sup>3\<close> in \<open>[0, 1)\<close>;
  \<^item> \<^verbatim>\<open>random.choice(seq)\<close> raises IndexError on an empty sequence;
  \<^item> \<^verbatim>\<open>random.randint(a, b)\<close> is \<open>a\<close> plus a draw below \<open>b - a + 1\<close>;
  \<^item> \<^verbatim>\<open>random.sample(seq, k)\<close> draws \<open>k\<close> positions without replacement.
\<close>

type_synonym rng = "nat \<Rightarrow> nat"

definition rnext :: "rng \<Rightarrow> rng" where
  "rnext r = (\<lambda>n. r (Suc n))"

definition random_float :: "rng \<Rightarrow> real \<times> rng" where
  "random_float r = (real (r 0 mod 2 ^ 53) / 2 ^ 53, rnext r)"

fun random_sample :: "'a list \<Rightarrow> nat \<Rightarrow> rng \<Rightarrow> 'a list \<times> rng" where
  "random_sample xs 0 r = ([], r)"
| "random_sample xs (Suc k) r =
     (let j = r 0 mod length xs;
          (ys, r') = random_sample (take j xs @ drop (Suc j) xs) k (rnext r)
      in (xs ! j # ys, r'))"

section \<open>Genetic operators\<close>

subsection \<open>Crossover\<close>

text \<open>
  \<^verbatim>\<open>_crossover\<close>: the loop \<^verbatim>\<open>for i in range(min_len)\<close> walks both non-fixed gene
  lists in step and stops at the shorter one; the tails are appended afterwards.
  \<^verbatim>\<open>copy.deepcopy\<close> is the identity on values.
\<close>

fun crossover_loop ::
  "entry list \<Rightarrow> entry list \<Rightarrow> rng \<Rightarrow> (entry list \<times> entry list) \<times> rng" where
  "crossover_loop (x # xs) (y # ys) r =
     (let (u, r1) = random_float r;
          ((c1, c2), r2) = crossover_loop xs ys r1
      in if u < 0.5 then ((x # c1, y # c2), r2) else ((y # c1, x # c2), r2))"
| "crossover_loop xs ys r = (([], []), r)"

definition crossover ::
  "real \<Rightarrow> timetable \<Rightarrow> timetable \<Rightarrow> rng \<Rightarrow> (timetable \<times> timetable) \<times> rng" where
  "crossover crossover_rate parent1 parent2 r =
     (let (u, r1) = random_float r in
      if u > crossover_rate then ((parent1, parent2), r1)
      else
        (let fixed_slots = filter is_fixed parent1;
             parent1_nonfixed = filter (\<lambda>s. \<not> is_fixed s) parent1;
             parent2_nonfixed = filter (\<lambda>s. \<not> is_fixed s) parent2;
             min_len = min (length parent1_nonfixed) (length parent2_nonfixed);
             ((m1, m2), r2) = crossover_loop parent1_nonfixed parent2_nonfixed r1
         in ((fixed_slots @ m1 @ drop min_len parent1_nonfixed,
              fixed_slots @ m2 @ drop min_len parent2_nonfixed), r2)))"

subsection \<open>Mutation\<close>

definition non_fixed_indices :: "timetable \<Rightarrow> nat list" where
  "non_fixed_indices tt = filter (\<lambda>i. \<not> is_fixed (tt ! i)) [0..<length tt]"

text \<open>Python's \<^verbatim>\<open>int(x)\<close> on a float truncates towards zero.\<close>

definition py_int :: "real \<Rightarrow> int" where
  "py_int x = (if 0 \<le> x then \<lfloor>x\<rfloor> else \<lceil>x\<rceil>)"

text \<open>
  The two tuple assignments of \<^verbatim>\<open>_mutate\<close>: the right-hand sides are read before
  either gene is written.
\<close>

definition swap_day_time :: "nat \<Rightarrow> nat \<Rightarrow> timetable \<Rightarrow> timetable" where
  "swap_day_time idx1 idx2 tt =
     (let g1 = tt ! idx1; g2 = tt ! idx2 in
      (tt[idx1 := g1\<lparr>day := day g2, time_slot := time_slot g2\<rparr>])
         [idx2 := g2\<lparr>day := day g1, time_slot := time_slot g1\<rparr>])"

fun mutate_loop :: "nat \<Rightarrow> real \<Rightarrow> nat list \<Rightarrow> timetable \<Rightarrow> rng \<Rightarrow> timetable \<times> rng" where
  "mutate_loop 0 mutation_rate nfi tt r = (tt, r)"
| "mutate_loop (Suc n) mutation_rate nfi tt r =
     (let (u, r1) = random_float r in
      if u < mutation_rate then
        (let (s, r2) = random_sample nfi 2 r1
         in mutate_loop n mutation_rate nfi (swap_day_time (s ! 0) (s ! 1) tt) r2)
      else mutate_loop n mutation_rate nfi tt r1)"

definition mutate :: "real \<Rightarrow> timetable \<Rightarrow> rng \<Rightarrow> timetable \<times> rng" where
  "mutate mutation_rate tt r =
     (let nfi = non_fixed_indices tt in
      if length nfi < 2 then (tt, r)
      else mutate_loop (nat (py_int (real (length nfi) * mutation_rate) + 1))
             mutation_rate nfi tt r)"

text \<open>The fields of a gene that say which requirement it stands for.\<close>

definition gene_identity :: "entry \<Rightarrow> int \<times> int \<times> int \<times> int \<times> string \<times> bool" where
  "gene_identity e =
     (batch_id e, subject_id e, faculty_id e, room_id e, room_type e, is_fixed e)"

definition day_time :: "entry \<Rightarrow> string \<times> string" where
  "day_time e = (day e, time_slot e)"

text \<open>What one run of the mutation loop may change, relative to the timetable it started from.\<close>

definition mutation_frame :: "timetable \<Rightarrow> timetable \<Rightarrow> bool" where
  "mutation_frame tt tt' \<longleftrightarrow>
     length tt' = length tt \<and>
     map gene_identity tt' = map gene_identity tt \<and>
     mset (map day_time tt') = mset (map day_time tt) \<and>
     (\<forall>k<length tt. is_fixed (tt ! k) \<longrightarrow> tt' ! k = tt ! k)"

section \<open>Example data\<close>

definition ex_fixed_gene :: entry where
  "ex_fixed_gene = \<lparr>batch_id = 1, day = ''Mon'', time_slot = ''P1'', subject_id = 10,
     faculty_id = 100, room_id = 1, room_type = ''classroom'', is_fixed = True\<rparr>"

definition ex_gene_a :: entry where
  "ex_gene_a = \<lparr>batch_id = 1, day = ''Mon'', time_slot = ''P2'', subject_id = 11,
     faculty_id = 101, room_id = 1, room_type = ''classroom'', is_fixed = False\<rparr>"

definition ex_gene_b :: entry where
  "ex_gene_b = \<lparr>batch_id = 1, day = ''Tue'', time_slot = ''P1'', subject_id = 12,
     faculty_id = 102, room_id = 2, room_type = ''lab'', is_fixed = False\<rparr>"

definition zero_tape :: rng where
  "zero_tape = (\<lambda>n. 0)"

section \<open>Properties of the random source\<close>

lemma random_sample_props:
  "k \<le> length xs \<Longrightarrow>
     length (fst (random_sample xs k r)) = k \<and>
     set (fst (random_sample xs k r)) \<subseteq> set xs \<and>
     (distinct xs \<longrightarrow> distinct (fst (random_sample xs k r)))"
proof (induction k arbitrary: xs r)
  case 0
  then show ?case by simp
next
  case (Suc k)
  define j where "j = r 0 mod length xs"
  define rest where "rest = take j xs @ drop (Suc j) xs"
  from Suc.prems have pos: "0 < length xs" by auto
  then have jlt: "j < length xs" by (simp add: j_def)
  then have lrest: "length rest = length xs - 1"
    by (simp add: rest_def min_def)
  with Suc.prems have kle: "k \<le> length rest" by auto
  note ih = Suc.IH [OF kle, of "rnext r"]
  have sub: "set rest \<subseteq> set xs"
    unfolding rest_def by (auto dest: in_set_takeD in_set_dropD)
  have xs_split: "xs = take j xs @ xs ! j # drop (Suc j) xs"
    using jlt by (simp add: id_take_nth_drop)
  have dist: "distinct xs \<Longrightarrow> distinct rest \<and> xs ! j \<notin> set rest"
  proof -
    assume "distinct xs"
    then have "distinct (take j xs @ xs ! j # drop (Suc j) xs)"
      using xs_split by simp
    then show ?thesis unfolding rest_def by auto
  qed
  have eq: "fst (random_sample xs (Suc k) r) = xs ! j # fst (random_sample rest k (rnext r))"
    by (simp add: j_def rest_def Let_def split: prod.splits)
  show ?case
    unfolding eq using ih sub jlt dist by auto
qed

section \<open>Frame lemmas for mutation\<close>

lemma swap_day_time_length: "length (swap_day_time i j tt) = length tt"
  by (simp add: swap_day_time_def Let_def)

lemma gene_identity_day_time_update:
  "gene_identity (g\<lparr>day := d, time_slot := t\<rparr>) = gene_identity g"
  by (simp add: gene_identity_def)

lemma swap_day_time_identity:
  assumes "i < length tt" "j < length tt"
  shows "map gene_identity (swap_day_time i j tt) = map gene_identity tt"
proof -
  let ?ids = "map gene_identity tt"
  have "map gene_identity (swap_day_time i j tt) = ?ids[i := ?ids ! i, j := ?ids ! j]"
    using assms
    by (simp add: swap_day_time_def Let_def map_update gene_identity_day_time_update)
  then show ?thesis by simp
qed

lemma swap_day_time_day_time:
  "i < length tt \<Longrightarrow> j < length tt \<Longrightarrow>
   map day_time (swap_day_time i j tt) =
     (map day_time tt)[i := map day_time tt ! j, j := map day_time tt ! i]"
  by (simp add: swap_day_time_def Let_def map_update day_time_def)

lemma swap_day_time_mset:
  assumes "i < length tt" "j < length tt"
  shows "mset (map day_time (swap_day_time i j tt)) = mset (map day_time tt)"
proof -
  have "mset ((map day_time tt)[i := map day_time tt ! j, j := map day_time tt ! i])
        = mset (map day_time tt)"
    using mset_swap [of j "map day_time tt" i] assms by simp
  then show ?thesis
    using swap_day_time_day_time [OF assms] by simp
qed

lemma swap_day_time_other:
  "k \<noteq> i \<Longrightarrow> k \<noteq> j \<Longrightarrow> swap_day_time i j tt ! k = tt ! k"
  by (simp add: swap_day_time_def Let_def)

lemma non_fixed_indices_set:
  "set (non_fixed_indices tt) = {i. i < length tt \<and> \<not> is_fixed (tt ! i)}"
  by (auto simp: non_fixed_indices_def)

lemma non_fixed_indices_distinct: "distinct (non_fixed_indices tt)"
  by (simp add: non_fixed_indices_def)

lemma mutation_frame_refl: "mutation_frame tt tt"
  by (simp add: mutation_frame_def)

lemma is_fixed_of_identity:
  "map gene_identity tt' = map gene_identity tt \<Longrightarrow> k < length tt \<Longrightarrow>
   is_fixed (tt' ! k) = is_fixed (tt ! k)"
proof -
  assume eq: "map gene_identity tt' = map gene_identity tt" and k: "k < length tt"
  from eq have len: "length tt' = length tt" by (metis length_map)
  from eq have "map gene_identity tt' ! k = map gene_identity tt ! k" by simp
  with k len have "gene_identity (tt' ! k) = gene_identity (tt ! k)" by simp
  then show ?thesis by (simp add: gene_identity_def)
qed

lemma mutation_frame_swap:
  assumes fr: "mutation_frame tt tt'"
    and i: "i < length tt" "\<not> is_fixed (tt ! i)"
    and j: "j < length tt" "\<not> is_fixed (tt ! j)"
  shows "mutation_frame tt (swap_day_time i j tt')"
proof -
  from fr have len: "length tt' = length tt"
    and idn: "map gene_identity tt' = map gene_identity tt"
    and ms: "mset (map day_time tt') = mset (map day_time tt)"
    and fx: "\<forall>k<length tt. is_fixed (tt ! k) \<longrightarrow> tt' ! k = tt ! k"
    by (simp_all add: mutation_frame_def)
  have i': "i < length tt'" and j': "j < length tt'" using i j len by simp_all
  have "\<forall>k<length tt. is_fixed (tt ! k) \<longrightarrow> swap_day_time i j tt' ! k = tt ! k"
  proof (intro allI impI)
    fix k assume k: "k < length tt" and f: "is_fixed (tt ! k)"
    then have "k \<noteq> i" "k \<noteq> j" using i j by auto
    then show "swap_day_time i j tt' ! k = tt ! k"
      using fx k f by (simp add: swap_day_time_other)
  qed
  then show ?thesis
    unfolding mutation_frame_def
    using len idn ms swap_day_time_length [of i j tt']
      swap_day_time_identity [OF i' j'] swap_day_time_mset [OF i' j']
    by simp
qed

lemma random_sample_two:
  assumes "2 \<le> length xs"
  shows "fst (random_sample xs 2 r) ! 0 \<in> set xs \<and> fst (random_sample xs 2 r) ! 1 \<in> set xs"
proof -
  let ?s = "fst (random_sample xs 2 r)"
  from random_sample_props [OF assms, of r]
  have len: "length ?s = 2" and sub: "set ?s \<subseteq> set xs" by simp_all
  from len have "?s ! 0 \<in> set ?s" "?s ! 1 \<in> set ?s" by simp_all
  with sub show ?thesis by blast
qed

lemma mutate_loop_frame:
  assumes nfi: "set nfi \<subseteq> {i. i < length tt \<and> \<not> is_fixed (tt ! i)}" "2 \<le> length nfi"
  shows "mutation_frame tt tt' \<Longrightarrow> mutation_frame tt (fst (mutate_loop n rate nfi tt' r))"
proof (induction n arbitrary: tt' r)
  case 0
  then show ?case by simp
next
  case (Suc n)
  obtain u r1 where u: "random_float r = (u, r1)" by (cases "random_float r")
  show ?case
  proof (cases "u < rate")
    case True
    obtain s r2 where s: "random_sample nfi 2 r1 = (s, r2)" by (cases "random_sample nfi 2 r1")
    from random_sample_two [OF nfi(2), of r1] s
    have "s ! 0 \<in> set nfi" "s ! 1 \<in> set nfi" by simp_all
    with nfi(1) have "s ! 0 < length tt" "\<not> is_fixed (tt ! (s ! 0))"
      "s ! 1 < length tt" "\<not> is_fixed (tt ! (s ! 1))" by auto
    from mutation_frame_swap [OF Suc.prems this]
    have "mutation_frame tt (swap_day_time (s ! 0) (s ! 1) tt')" .
    from Suc.IH [OF this] show ?thesis
      using u True s by simp
  next
    case False
    with Suc.IH [OF Suc.prems] u show ?thesis by simp
  qed
qed

lemma mutate_frame: "mutation_frame tt (fst (mutate rate tt r))"
proof (cases "length (non_fixed_indices tt) < 2")
  case True
  then show ?thesis by (simp add: mutate_def mutation_frame_refl)
next
  case False
  then have "2 \<le> length (non_fixed_indices tt)" by simp
  have "set (non_fixed_indices tt) \<subseteq> {i. i < length tt \<and> \<not> is_fixed (tt ! i)}"
    by (simp add: non_fixed_indices_set)
  from mutate_loop_frame [OF this \<open>2 \<le> length (non_fixed_indices tt)\<close> mutation_frame_refl]
  show ?thesis
    using False by (simp add: mutate_def Let_def)
qed

lemma filter_pointwise:
  "length xs = length ys \<Longrightarrow>
   (\<forall>k<length xs. P (ys ! k) = P (xs ! k) \<and> (P (xs ! k) \<longrightarrow> ys ! k = xs ! k)) \<Longrightarrow>
   filter P ys = filter P xs"
proof (induction xs ys rule: list_induct2)
  case Nil
  then show ?case by simp
next
  case (Cons x xs y ys)
  from Cons.prems have hd: "P y = P x \<and> (P x \<longrightarrow> y = x)" by force
  from Cons.prems have "\<forall>k<length xs. P (ys ! k) = P (xs ! k) \<and> (P (xs ! k) \<longrightarrow> ys ! k = xs ! k)"
    by force
  from Cons.IH [OF this] hd show ?case by auto
qed

lemma mutation_frame_fixed:
  assumes "mutation_frame tt tt'"
  shows "filter is_fixed tt' = filter is_fixed tt"
proof -
  from assms have len: "length tt' = length tt"
    and idn: "map gene_identity tt' = map gene_identity tt"
    and fx: "\<forall>k<length tt. is_fixed (tt ! k) \<longrightarrow> tt' ! k = tt ! k"
    by (simp_all add: mutation_frame_def)
  have "\<forall>k<length tt. is_fixed (tt' ! k) = is_fixed (tt ! k) \<and>
          (is_fixed (tt ! k) \<longrightarrow> tt' ! k = tt ! k)"
    using is_fixed_of_identity [OF idn] fx by blast
  with filter_pointwise [of tt tt' is_fixed] len show ?thesis by simp
qed

section \<open>Crossover lemmas\<close>

lemma crossover_loop_props:
  "length (fst (fst (crossover_loop xs ys r))) = min (length xs) (length ys) \<and>
   length (snd (fst (crossover_loop xs ys r))) = min (length xs) (length ys) \<and>
   set (fst (fst (crossover_loop xs ys r))) \<subseteq> set xs \<union> set ys \<and>
   set (snd (fst (crossover_loop xs ys r))) \<subseteq> set xs \<union> set ys"
proof (induction xs ys r rule: crossover_loop.induct)
  case (1 x xs y ys r)
  obtain u r1 where u: "random_float r = (u, r1)" by (cases "random_float r")
  obtain c1 c2 r2 where c: "crossover_loop xs ys r1 = ((c1, c2), r2)"
    by (cases "crossover_loop xs ys r1") auto
  from "1.IH" [OF u [symmetric] refl] c
  show ?case using u by auto
qed simp_all

lemma crossover_loop_nonfixed:
  assumes "\<forall>x\<in>set xs. \<not> is_fixed x" "\<forall>y\<in>set ys. \<not> is_fixed y"
  shows "filter is_fixed (fst (fst (crossover_loop xs ys r))) = [] \<and>
         filter is_fixed (snd (fst (crossover_loop xs ys r))) = [] \<and>
         filter (\<lambda>s. \<not> is_fixed s) (fst (fst (crossover_loop xs ys r)))
           = fst (fst (crossover_loop xs ys r)) \<and>
         filter (\<lambda>s. \<not> is_fixed s) (snd (fst (crossover_loop xs ys r)))
           = snd (fst (crossover_loop xs ys r))"
proof -
  from crossover_loop_props [of xs ys r] assms
  have "\<forall>x\<in>set (fst (fst (crossover_loop xs ys r))). \<not> is_fixed x"
    and "\<forall>x\<in>set (snd (fst (crossover_loop xs ys r))). \<not> is_fixed x"
    by blast+
  then show ?thesis by (simp add: filter_empty_conv filter_id_conv)
qed

lemma crossover_children:
  assumes "crossover rate p1 p2 r = ((c1, c2), r')"
  shows "(c1 = p1 \<and> c2 = p2) \<or>
         (filter is_fixed c1 = filter is_fixed p1 \<and>
          filter is_fixed c2 = filter is_fixed p1 \<and>
          length (filter (\<lambda>s. \<not> is_fixed s) c1) = length (filter (\<lambda>s. \<not> is_fixed s) p1) \<and>
          length (filter (\<lambda>s. \<not> is_fixed s) c2) = length (filter (\<lambda>s. \<not> is_fixed s) p2))"
proof -
  obtain u r1 where u: "random_float r = (u, r1)" by (cases "random_float r")
  show ?thesis
  proof (cases "u > rate")
    case True
    then have "crossover rate p1 p2 r = ((p1, p2), r1)"
      using u by (simp add: crossover_def)
    with assms show ?thesis by simp
  next
    case False
    define n1 where "n1 = filter (\<lambda>s. \<not> is_fixed s) p1"
    define n2 where "n2 = filter (\<lambda>s. \<not> is_fixed s) p2"
    define k where "k = min (length n1) (length n2)"
    obtain ms r2 where ms: "crossover_loop n1 n2 r1 = (ms, r2)"
      by (cases "crossover_loop n1 n2 r1")
    obtain m1 m2 where m12: "ms = (m1, m2)" by (cases ms)
    have nf1: "\<forall>x\<in>set n1. \<not> is_fixed x" and nf2: "\<forall>x\<in>set n2. \<not> is_fixed x"
      by (simp_all add: n1_def n2_def)
    from crossover_loop_nonfixed [OF nf1 nf2, of r1] ms m12
    have nf: "filter is_fixed m1 = []" "filter is_fixed m2 = []"
      "filter (\<lambda>s. \<not> is_fixed s) m1 = m1" "filter (\<lambda>s. \<not> is_fixed s) m2 = m2"
      by simp_all
    from crossover_loop_props [of n1 n2 r1] ms m12
    have len: "length m1 = k" "length m2 = k" by (simp_all add: k_def)
    have tl1: "filter is_fixed (drop k n1) = []"
      "filter (\<lambda>s. \<not> is_fixed s) (drop k n1) = drop k n1"
      using nf1 by (auto simp: filter_empty_conv filter_id_conv dest: in_set_dropD)
    have tl2: "filter is_fixed (drop k n2) = []"
      "filter (\<lambda>s. \<not> is_fixed s) (drop k n2) = drop k n2"
      using nf2 by (auto simp: filter_empty_conv filter_id_conv dest: in_set_dropD)
    have "crossover rate p1 p2 r =
        ((filter is_fixed p1 @ m1 @ drop k n1, filter is_fixed p1 @ m2 @ drop k n2), r2)"
      unfolding crossover_def u Let_def n1_def [symmetric] n2_def [symmetric] k_def [symmetric]
      using False ms m12 by simp
    with assms have c1: "c1 = filter is_fixed p1 @ m1 @ drop k n1"
      and c2: "c2 = filter is_fixed p1 @ m2 @ drop k n2" by simp_all
    have f1: "filter is_fixed c1 = filter is_fixed p1"
      unfolding c1 using nf(1) tl1(1) by simp
    have f2: "filter is_fixed c2 = filter is_fixed p1"
      unfolding c2 using nf(2) tl2(1) by simp
    have kle: "k \<le> length n1" "k \<le> length n2" by (simp_all add: k_def)
    have g1: "length (filter (\<lambda>s. \<not> is_fixed s) c1) = length n1"
      unfolding c1 using nf(3) tl1(2) len(1) kle(1) by simp
    have g2: "length (filter (\<lambda>s. \<not> is_fixed s) c2) = length n2"
      unfolding c2 using nf(4) tl2(2) len(2) kle(2) by simp
    from f1 f2 g1 g2 show ?thesis by (simp add: n1_def n2_def)
  qed
qed

lemma mset_map_filter_split:
  "mset (map f xs) = mset (map f (filter P xs)) + mset (map f (filter (\<lambda>x. \<not> P x) xs))"
  by (induction xs) simp_all

lemma mutation_frame_nonfixed_mset:
  assumes "mutation_frame tt tt'"
  shows "mset (map day_time (filter (\<lambda>s. \<not> is_fixed s) tt'))
         = mset (map day_time (filter (\<lambda>s. \<not> is_fixed s) tt))"
proof -
  from assms have ms: "mset (map day_time tt') = mset (map day_time tt)"
    by (simp add: mutation_frame_def)
  have "mset (map day_time (filter is_fixed tt')) + mset (map day_time (filter (\<lambda>s. \<not> is_fixed s) tt'))
      = mset (map day_time (filter is_fixed tt)) + mset (map day_time (filter (\<lambda>s. \<not> is_fixed s) tt))"
    using ms mset_map_filter_split [of day_time tt' is_fixed]
      mset_map_filter_split [of day_time tt is_fixed] by simp
  then show ?thesis
    using mutation_frame_fixed [OF assms] by simp
qed

lemma rnext_zero_tape [simp]: "rnext zero_tape = zero_tape"
  by (simp add: rnext_def zero_tape_def)

lemma random_float_zero_tape [simp]: "random_float zero_tape = (0, zero_tape)"
  by (simp add: random_float_def zero_tape_def rnext_def)

lemma zero_tape_0 [simp]: "zero_tape n = 0"
  by (simp add: zero_tape_def)

section \<open>Claims about the genetic operators\<close>

text \<open>
  Claim C9. For parents with identical fixed genes and equally many non-fixed genes, both
  children of \<^verbatim>\<open>_crossover\<close> have as many fixed and as many non-fixed genes as each
  parent. For every timetable, rate and tape, \<^verbatim>\<open>_mutate\<close> returns a timetable of the
  same length whose genes keep batch, subject, faculty, room, room type and the fixed flag
  position by position; fixed genes are returned as they were; and the (day, time slot)
  pairs of the non-fixed genes are a rearrangement of the original ones.
\<close>

theorem crossover_mutation_closure:
  "(filter is_fixed parent1 = filter is_fixed parent2 \<and>
    length (filter (\<lambda>s. \<not> is_fixed s) parent1) = length (filter (\<lambda>s. \<not> is_fixed s) parent2) \<longrightarrow>
      (\<forall>child \<in> {fst (fst (crossover crossover_rate parent1 parent2 r)),
                   snd (fst (crossover crossover_rate parent1 parent2 r))}.
         length (filter is_fixed child) = length (filter is_fixed parent1) \<and>
         length (filter is_fixed child) = length (filter is_fixed parent2) \<and>
         length (filter (\<lambda>s. \<not> is_fixed s) child) = length (filter (\<lambda>s. \<not> is_fixed s) parent1) \<and>
         length (filter (\<lambda>s. \<not> is_fixed s) child) = length (filter (\<lambda>s. \<not> is_fixed s) parent2)))
   \<and>
   (let mutated = fst (mutate mutation_rate timetable r) in
      length mutated = length timetable \<and>
      map gene_identity mutated = map gene_identity timetable \<and>
      (\<forall>k<length timetable. is_fixed (timetable ! k) \<longrightarrow> mutated ! k = timetable ! k) \<and>
      mset (map day_time (filter (\<lambda>s. \<not> is_fixed s) mutated))
        = mset (map day_time (filter (\<lambda>s. \<not> is_fixed s) timetable)))"
proof (intro conjI impI)
  assume h: "filter is_fixed parent1 = filter is_fixed parent2 \<and>
    length (filter (\<lambda>s. \<not> is_fixed s) parent1) = length (filter (\<lambda>s. \<not> is_fixed s) parent2)"
  obtain c1 c2 r' where c: "crossover crossover_rate parent1 parent2 r = ((c1, c2), r')"
    by (cases "crossover crossover_rate parent1 parent2 r") auto
  from crossover_children [OF c] h
  show "\<forall>child \<in> {fst (fst (crossover crossover_rate parent1 parent2 r)),
                   snd (fst (crossover crossover_rate parent1 parent2 r))}.
         length (filter is_fixed child) = length (filter is_fixed parent1) \<and>
         length (filter is_fixed child) = length (filter is_fixed parent2) \<and>
         length (filter (\<lambda>s. \<not> is_fixed s) child) = length (filter (\<lambda>s. \<not> is_fixed s) parent1) \<and>
         length (filter (\<lambda>s. \<not> is_fixed s) child) = length (filter (\<lambda>s. \<not> is_fixed s) parent2)"
    unfolding c by auto
next
  have fr: "mutation_frame timetable (fst (mutate mutation_rate timetable r))"
    by (rule mutate_frame)
  show "let mutated = fst (mutate mutation_rate timetable r) in
      length mutated = length timetable \<and>
      map gene_identity mutated = map gene_identity timetable \<and>
      (\<forall>k<length timetable. is_fixed (timetable ! k) \<longrightarrow> mutated ! k = timetable ! k) \<and>
      mset (map day_time (filter (\<lambda>s. \<not> is_fixed s) mutated))
        = mset (map day_time (filter (\<lambda>s. \<not> is_fixed s) timetable))"
    using fr mutation_frame_nonfixed_mset [OF fr]
    by (simp add: mutation_frame_def Let_def)
qed

theorem crossover_mutation_closure_witness:
  "filter is_fixed [ex_fixed_gene, ex_gene_a] = filter is_fixed [ex_fixed_gene, ex_gene_b] \<and>
   length (filter (\<lambda>s. \<not> is_fixed s) [ex_fixed_gene, ex_gene_a])
     = length (filter (\<lambda>s. \<not> is_fixed s) [ex_fixed_gene, ex_gene_b]) \<and>
   length (filter is_fixed
     (snd (fst (crossover (4/5) [ex_fixed_gene, ex_gene_a] [ex_fixed_gene, ex_gene_b] zero_tape)))) = 1 \<and>
   length (filter (\<lambda>s. \<not> is_fixed s)
     (snd (fst (crossover (4/5) [ex_fixed_gene, ex_gene_a] [ex_fixed_gene, ex_gene_b] zero_tape)))) = 1 \<and>
   length (fst (mutate (1/2) [ex_fixed_gene, ex_gene_a, ex_gene_b] zero_tape)) = 3 \<and>
   fst (mutate (1/2) [ex_fixed_gene, ex_gene_a, ex_gene_b] zero_tape) ! 0 = ex_fixed_gene"
proof -
  let ?p1 = "[ex_fixed_gene, ex_gene_a]" and ?p2 = "[ex_fixed_gene, ex_gene_b]"
  let ?tt = "[ex_fixed_gene, ex_gene_a, ex_gene_b]"
  let ?c2 = "snd (fst (crossover (4/5) ?p1 ?p2 zero_tape))"
  let ?m = "fst (mutate (1/2) ?tt zero_tape)"
  have fx: "is_fixed ex_fixed_gene" "\<not> is_fixed ex_gene_a" "\<not> is_fixed ex_gene_b"
    by (simp_all add: ex_fixed_gene_def ex_gene_a_def ex_gene_b_def)
  have h1: "filter is_fixed ?p1 = filter is_fixed ?p2" using fx by simp
  have h2: "length (filter (\<lambda>s. \<not> is_fixed s) ?p1) = length (filter (\<lambda>s. \<not> is_fixed s) ?p2)"
    using fx by simp
  note inst = crossover_mutation_closure [of ?p1 ?p2 "4/5" zero_tape "1/2" ?tt]
  from inst h1 h2 have
    "\<forall>child \<in> {fst (fst (crossover (4/5) ?p1 ?p2 zero_tape)), ?c2}.
         length (filter is_fixed child) = length (filter is_fixed ?p1) \<and>
         length (filter is_fixed child) = length (filter is_fixed ?p2) \<and>
         length (filter (\<lambda>s. \<not> is_fixed s) child) = length (filter (\<lambda>s. \<not> is_fixed s) ?p1) \<and>
         length (filter (\<lambda>s. \<not> is_fixed s) child) = length (filter (\<lambda>s. \<not> is_fixed s) ?p2)"
    by blast
  then have c: "length (filter is_fixed ?c2) = length (filter is_fixed ?p1)"
    "length (filter (\<lambda>s. \<not> is_fixed s) ?c2) = length (filter (\<lambda>s. \<not> is_fixed s) ?p1)"
    by blast+
  have c': "length (filter is_fixed ?c2) = 1" "length (filter (\<lambda>s. \<not> is_fixed s) ?c2) = 1"
    using c fx by simp_all
  from inst have m: "length ?m = length ?tt"
    "\<forall>k<length ?tt. is_fixed (?tt ! k) \<longrightarrow> ?m ! k = ?tt ! k"
    unfolding Let_def by blast+
  from m(2) have "is_fixed (?tt ! 0) \<longrightarrow> ?m ! 0 = ?tt ! 0" by simp
  then have m0: "?m ! 0 = ex_fixed_gene" using fx by simp
  from m(1) have m1: "length ?m = 3" by simp
  from h1 h2 c' m1 m0 show ?thesis by blast
qed

end
